theory Spec2Isabelle
  imports Main
begin

section \<open>Time\<close>

text \<open>
  A \<open>pd.Timestamp\<close> is modelled by its count of nanoseconds since the epoch, a
  \<open>timedelta\<close> by a count of nanoseconds; both are unbounded integers (the range limits
  of pandas timestamps are not represented). \<open>timedelta(days=n)\<close> is \<open>days n\<close>.
\<close>

type_synonym timestamp = int

definition day_ns :: int where
  "day_ns = 86400000000000"

definition days :: "int \<Rightarrow> int" where
  "days n = n * day_ns"

text \<open>
  \<open>ts.strftime("%Y-%m-%d")\<close> renders the calendar date of a timestamp; the model keeps
  the date as the number of the day since the epoch.
\<close>

definition strftime_date :: "timestamp \<Rightarrow> int" where
  "strftime_date ts = ts div day_ns"

section \<open>The downloader and its constructor\<close>

record downloader =
  ticker :: string
  interval :: string
  output_dir :: string
  start_date :: timestamp
  end_date :: timestamp
  max_chunk :: int

definition minute_intervals :: "string list" where
  "minute_intervals = [''1m'', ''2m'', ''5m'', ''15m'', ''30m'']"

definition hourly_intervals :: "string list" where
  "hourly_intervals = [''60m'', ''90m'', ''1h'']"

text \<open>
  Lines 41-54 of \<open>__init__\<close>: the total number of historical days, from the optional
  argument (\<open>None\<close> is Python's \<open>None\<close>).
\<close>

definition resolve_historical_days :: "string \<Rightarrow> int option \<Rightarrow> int" where
  "resolve_historical_days iv historical_days =
     (case historical_days of
        None \<Rightarrow>
          (if iv \<in> set minute_intervals then 30
           else if iv \<in> set hourly_intervals then 90
           else 30)
      | Some h \<Rightarrow>
          (if iv \<in> set minute_intervals \<and> h > 30 then 30 else h))"

text \<open>Lines 61-69 of \<open>__init__\<close>: the number of days of one block.\<close>

definition resolve_chunk_days :: "string \<Rightarrow> int option \<Rightarrow> int" where
  "resolve_chunk_days iv chunk_days =
     (case chunk_days of
        None \<Rightarrow> (if iv = ''1m'' then 8 else 15)
      | Some c \<Rightarrow> (if iv = ''1m'' \<and> c > 8 then 8 else c))"

text \<open>
  \<open>adjust_dates\<close> reads the clock again (\<open>now'\<close>) and pulls an end date in the
  future back to it.
\<close>

definition adjust_dates :: "timestamp \<Rightarrow> downloader \<Rightarrow> downloader" where
  "adjust_dates now' d = (if end_date d > now' then d\<lparr>end_date := now'\<rparr> else d)"

text \<open>
  \<open>__init__\<close>. The two clock readings are arguments: \<open>now\<close> is the reading of
  line 38, \<open>now'\<close> the one of \<open>adjust_dates\<close>. The creation of the output directory
  and the printed notices are not part of the model.
\<close>

definition init ::
  "string \<Rightarrow> string \<Rightarrow> int option \<Rightarrow> int option \<Rightarrow> string \<Rightarrow> timestamp \<Rightarrow> timestamp \<Rightarrow> downloader"
where
  "init tk iv chunk_days historical_days out now now' =
     adjust_dates now'
       \<lparr> ticker = tk, interval = iv, output_dir = out,
         start_date = now - days (resolve_historical_days iv historical_days) + days 1,
         end_date = now,
         max_chunk = days (resolve_chunk_days iv chunk_days) \<rparr>"

section \<open>The window walk\<close>

text \<open>
  The \<open>while\<close> loop of \<open>download\<close> (lines 113-134): \<open>body\<close> is what one iteration
  does with the block \<open>[current_start, current_end)\<close> to the loop's state. The loop need
  not end (a block length that is not positive never moves the cursor), so the result
  is optional: \<open>None\<close> is a loop that runs forever.
\<close>

partial_function (option) walk ::
  "(timestamp \<Rightarrow> timestamp \<Rightarrow> 's \<Rightarrow> 's) \<Rightarrow> int \<Rightarrow> timestamp \<Rightarrow> timestamp \<Rightarrow> 's \<Rightarrow> 's option"
where
  "walk body chunk end_ts current_start s =
     (if current_start < end_ts
      then walk body chunk end_ts (min (current_start + chunk) end_ts)
             (body current_start (min (current_start + chunk) end_ts) s)
      else Some s)"

text \<open>The blocks the loop visits, in order: the loop with a body that records its block.\<close>

definition window_walk :: "int \<Rightarrow> timestamp \<Rightarrow> timestamp \<Rightarrow> (timestamp \<times> timestamp) list option" where
  "window_walk chunk end_ts start = walk (\<lambda>a b ws. ws @ [(a, b)]) chunk end_ts start []"

definition windows_of :: "downloader \<Rightarrow> (timestamp \<times> timestamp) list option" where
  "windows_of d = window_walk (max_chunk d) (end_date d) (start_date d)"

text \<open>
  The blocks as a total function, for the case of a positive block length; it is the
  unfolding of the loop (\<open>walk_chunks\<close> below), and the proofs go through it.
\<close>

function chunks :: "int \<Rightarrow> timestamp \<Rightarrow> timestamp \<Rightarrow> (timestamp \<times> timestamp) list" where
  "chunks c e cur =
     (if cur < e \<and> 0 < c then (cur, min (cur + c) e) # chunks c e (min (cur + c) e) else [])"
  by pat_completeness auto
termination
  by (relation "measure (\<lambda>(c, e, cur). nat (e - cur))") auto

declare chunks.simps [simp del]

section \<open>Tables\<close>

text \<open>
  A column label is a string or a tuple of strings (the labels of a column index with
  several levels, such as \<open>('Open', 'BTC-USD')\<close>). A cell is a value or missing
  (\<open>None\<close> is pandas' NaN). Rows are kept in order.
\<close>

datatype label = Str string | Tup "string list"

datatype error = IndexError | ValueError | InvalidIndexError

record 'a dataframe =
  columns :: "label list"
  rows :: "'a option list list"

text \<open>
  A table as the provider returns it carries a row index (the timestamps) beside its data
  columns: each row is the pair of its index value and its cells. \<open>index_label\<close> is the
  label under which \<open>reset_index\<close> inserts the index as a column.
\<close>

record 'a indexed_frame =
  index_label :: label
  data_columns :: "label list"
  indexed_rows :: "('a option \<times> 'a option list) list"

text \<open>\<open>df.empty\<close>: one of the two axes has length 0.\<close>

definition df_empty :: "'a indexed_frame \<Rightarrow> bool" where
  "df_empty df \<longleftrightarrow> indexed_rows df = [] \<or> data_columns df = []"

text \<open>
  \<open>df.reset_index(inplace=True)\<close>: the index becomes the first column; pandas refuses
  to insert a column whose label is already there.
\<close>

definition reset_index :: "'a indexed_frame \<Rightarrow> error + 'a dataframe" where
  "reset_index df =
     (if index_label df \<in> set (data_columns df) then Inl ValueError
      else Inr \<lparr> columns = index_label df # data_columns df,
                 rows = map (\<lambda>(i, cs). i # cs) (indexed_rows df) \<rparr>)"

text \<open>The body of the loop of \<open>flatten_columns\<close>; \<open>col[0]\<close> of an empty tuple raises.\<close>

fun flatten_label :: "label \<Rightarrow> error + label" where
  "flatten_label (Tup []) = Inl IndexError"
| "flatten_label (Tup (c # cs)) = Inr (Str c)"
| "flatten_label (Str s) = Inr (Str s)"

fun new_columns :: "label list \<Rightarrow> error + label list" where
  "new_columns [] = Inr []"
| "new_columns (col # cols) =
     (case flatten_label col of
        Inl e \<Rightarrow> Inl e
      | Inr c \<Rightarrow> (case new_columns cols of Inl e \<Rightarrow> Inl e | Inr cs \<Rightarrow> Inr (c # cs)))"

text \<open>
  \<open>if "Datetime" in df.columns: df.rename(columns={"Datetime": "Date"}, inplace=True)\<close>,
  as both scripts have it.
\<close>

definition rename_datetime :: "label list \<Rightarrow> label list" where
  "rename_datetime cols =
     (if Str ''Datetime'' \<in> set cols
      then map (\<lambda>c. if c = Str ''Datetime'' then Str ''Date'' else c) cols
      else cols)"

definition flatten_columns :: "'a dataframe \<Rightarrow> error + 'a dataframe" where
  "flatten_columns df =
     (case new_columns (columns df) of
        Inl e \<Rightarrow> Inl e
      | Inr cs \<Rightarrow> Inr (df\<lparr>columns := rename_datetime cs\<rparr>))"


section \<open>Fetching one block\<close>

text \<open>
  \<open>yf.download\<close> is the outside world: a function of the ticker, the two dates and the
  interval that raises an exception or returns a table.
\<close>

datatype 'a outcome = Raised | Returned "'a indexed_frame"

type_synonym 'a provider = "string \<Rightarrow> int \<Rightarrow> int \<Rightarrow> string \<Rightarrow> 'a outcome"

text \<open>
  One iteration of the loop (lines 117-132): the \<open>try\<close> block with its handler. Every
  exception raised inside the block (by the provider, by \<open>reset_index\<close>, by
  \<open>flatten_columns\<close>) ends the block and leaves \<open>data_frames\<close> as it was.
\<close>

definition fetch_chunk ::
  "'a provider \<Rightarrow> downloader \<Rightarrow> timestamp \<Rightarrow> timestamp \<Rightarrow> 'a dataframe list \<Rightarrow> 'a dataframe list"
where
  "fetch_chunk fetch d current_start current_end data_frames =
     (case fetch (ticker d) (strftime_date current_start) (strftime_date current_end) (interval d) of
        Raised \<Rightarrow> data_frames
      | Returned df \<Rightarrow>
          (if \<not> df_empty df then
             (case reset_index df of
                Inl e \<Rightarrow> data_frames
              | Inr df1 \<Rightarrow>
                  (case flatten_columns df1 of
                     Inl e \<Rightarrow> data_frames
                   | Inr df2 \<Rightarrow> data_frames @ [df2]))
           else data_frames))"

section \<open>Concatenation and removal of duplicates\<close>

text \<open>The distinct elements of a list in the order of their first appearance.\<close>

fun unique :: "'b list \<Rightarrow> 'b list \<Rightarrow> 'b list" where
  "unique seen [] = []"
| "unique seen (x # xs) = (if x \<in> set seen then unique seen xs else x # unique (x # seen) xs)"

text \<open>A row laid out under other columns: a column the row does not have is missing.\<close>

definition reindex :: "label list \<Rightarrow> label list \<Rightarrow> 'a option list \<Rightarrow> 'a option list" where
  "reindex cols' cols row =
     map (\<lambda>l. case map_of (zip cols row) l of None \<Rightarrow> None | Some v \<Rightarrow> v) cols'"

text \<open>The rows of a list of tables, in order, each laid out under the columns \<open>cols\<close>.\<close>

definition laid_out :: "label list \<Rightarrow> 'a dataframe list \<Rightarrow> 'a option list list" where
  "laid_out cols dfs = concat (map (\<lambda>df. map (reindex cols (columns df)) (rows df)) dfs)"

text \<open>
  \<open>pd.concat(data_frames, ignore_index=True)\<close>. There is nothing to concatenate in an
  empty list, which pandas refuses. Tables with the same columns are stacked as they are.
  Otherwise the columns of the result are the union of the columns in the order of first
  appearance and every row is laid out under them; pandas refuses to do that to a table
  with a repeated label.
\<close>

definition pd_concat :: "'a dataframe list \<Rightarrow> error + 'a dataframe" where
  "pd_concat dfs =
     (if dfs = [] then Inl ValueError
      else if list_all (\<lambda>df. columns df = columns (hd dfs)) dfs
      then Inr \<lparr> columns = columns (hd dfs), rows = concat (map rows dfs) \<rparr>
      else if list_ex (\<lambda>df. \<not> distinct (columns df)) dfs then Inl InvalidIndexError
      else
        let cols = unique [] (concat (map columns dfs))
        in Inr \<lparr> columns = cols, rows = laid_out cols dfs \<rparr>)"

text \<open>
  \<open>keep='first'\<close>: a row is dropped when an earlier row has its key; \<open>seen\<close> are the
  keys of the rows gone by.
\<close>

fun keep_first :: "('r \<Rightarrow> 'k) \<Rightarrow> 'k list \<Rightarrow> 'r list \<Rightarrow> 'r list" where
  "keep_first key seen [] = []"
| "keep_first key seen (r # rs) =
     (if key r \<in> set seen then keep_first key seen rs
      else r # keep_first key (key r # seen) rs)"

text \<open>
  The key of a row under \<open>subset=c\<close>: its values in the columns labelled \<open>c\<close>
  (one value, the one in that column, when the label occurs once).
\<close>

definition subset_key :: "label list \<Rightarrow> label \<Rightarrow> 'a option list \<Rightarrow> 'a option list" where
  "subset_key cols c row = map snd (filter (\<lambda>(l, v). l = c) (zip cols row))"

text \<open>
  \<open>result.drop_duplicates(subset=result.columns[0], keep='first', inplace=True)\<close>;
  \<open>columns[0]\<close> of a table with no column raises.
\<close>

definition drop_duplicates :: "'a dataframe \<Rightarrow> error + 'a dataframe" where
  "drop_duplicates result =
     (case columns result of
        [] \<Rightarrow> Inl IndexError
      | c # cs \<Rightarrow>
          Inr (result\<lparr>rows := keep_first (subset_key (columns result) c) [] (rows result)\<rparr>))"

text \<open>Lines 137-139: the aggregation of the blocks' tables.\<close>

definition aggregate :: "'a dataframe list \<Rightarrow> error + 'a dataframe" where
  "aggregate data_frames =
     (case pd_concat data_frames of
        Inl e \<Rightarrow> Inl e
      | Inr result \<Rightarrow> drop_duplicates result)"

section \<open>download\<close>

text \<open>\<open>os.path.join\<close> of two components, on POSIX.\<close>

definition path_join :: "string \<Rightarrow> string \<Rightarrow> string" where
  "path_join a b =
     (if b \<noteq> [] \<and> hd b = CHR ''/'' then b
      else if a = [] \<or> last a = CHR ''/'' then a @ b
      else a @ ''/'' @ b)"

definition filename :: "downloader \<Rightarrow> string" where
  "filename d = path_join (output_dir d) (ticker d @ ''_'' @ interval d @ ''.csv'')"

text \<open>
  The file system is a map from paths to what was written there; \<open>to_csv\<close> stores the
  table (its rendering as text is not modelled, nor a failing write).
\<close>

type_synonym 'a files = "string \<rightharpoonup> 'a dataframe"

text \<open>Lines 136-147: what \<open>download\<close> does with \<open>data_frames\<close> after the loop.\<close>

definition finish ::
  "downloader \<Rightarrow> bool \<Rightarrow> 'a files \<Rightarrow> 'a dataframe list \<Rightarrow> error + ('a dataframe \<times> 'a files)"
where
  "finish d save_csv fs data_frames =
     (if data_frames \<noteq> [] then
        (case aggregate data_frames of
           Inl e \<Rightarrow> Inl e
         | Inr result \<Rightarrow>
             Inr (result, if save_csv then fs(filename d \<mapsto> result) else fs))
      else Inr (\<lparr> columns = [], rows = [] \<rparr>, fs))"

text \<open>
  \<open>download\<close>: \<open>None\<close> when the loop never ends, \<open>Some (Inl e)\<close> when an exception
  reaches the caller, \<open>Some (Inr (result, fs'))\<close> when it returns \<open>result\<close> and leaves
  the files \<open>fs'\<close>.
\<close>

definition data_frames_of :: "'a provider \<Rightarrow> downloader \<Rightarrow> 'a dataframe list option" where
  "data_frames_of fetch d =
     walk (fetch_chunk fetch d) (max_chunk d) (end_date d) (start_date d) []"

definition download ::
  "'a provider \<Rightarrow> downloader \<Rightarrow> bool \<Rightarrow> 'a files \<Rightarrow> (error + ('a dataframe \<times> 'a files)) option"
where
  "download fetch d save_csv fs = map_option (finish d save_csv fs) (data_frames_of fetch d)"

section \<open>Properties of the window walk\<close>

lemma walk_chunks:
  "0 < c \<Longrightarrow> walk body c e cur s = Some (foldl (\<lambda>s (a, b). body a b s) s (chunks c e cur))"
proof (induction c e cur arbitrary: s rule: chunks.induct)
  case (1 c e cur)
  show ?case
  proof (cases "cur < e")
    case True
    with 1 show ?thesis
      by (subst walk.simps, subst chunks.simps) simp
  next
    case False
    then show ?thesis
      by (subst walk.simps, subst chunks.simps) simp
  qed
qed

lemma foldl_snoc_pairs:
  "foldl (\<lambda>s (a, b). s @ [(a, b)]) acc ws = acc @ ws"
  by (induction ws arbitrary: acc) auto

lemma window_walk_chunks: "0 < c \<Longrightarrow> window_walk c e s = Some (chunks c e s)"
  by (simp add: window_walk_def walk_chunks foldl_snoc_pairs)



lemma chunks_Nil: "\<not> (cur < e \<and> 0 < c) \<Longrightarrow> chunks c e cur = []"
  by (subst chunks.simps) simp

lemma chunks_Cons:
  "cur < e \<Longrightarrow> 0 < c \<Longrightarrow> chunks c e cur = (cur, min (cur + c) e) # chunks c e (min (cur + c) e)"
  by (subst chunks.simps) simp


lemma chunks_bounds:
  "w \<in> set (chunks c e cur) \<Longrightarrow>
     cur \<le> fst w \<and> fst w < snd w \<and> snd w \<le> e \<and> snd w = min (fst w + c) e \<and> snd w - fst w \<le> c"
proof (induction c e cur rule: chunks.induct)
  case (1 c e cur)
  show ?case
  proof (cases "cur < e \<and> 0 < c")
    case True
    then have step: "cur \<le> min (cur + c) e" by simp
    from 1(2) True consider "w = (cur, min (cur + c) e)" | "w \<in> set (chunks c e (min (cur + c) e))"
      by (auto simp: chunks_Cons)
    then show ?thesis
    proof cases
      case 1
      with True show ?thesis by auto
    next
      case 2
      from "1.IH"[OF True 2] step show ?thesis by linarith
    qed
  next
    case False
    with 1 show ?thesis by (simp add: chunks_Nil)
  qed
qed

lemma chunks_hd: "chunks c e cur \<noteq> [] \<Longrightarrow> fst (hd (chunks c e cur)) = cur"
  by (cases "cur < e \<and> 0 < c") (auto simp: chunks_Cons chunks_Nil)

lemma chunks_empty_iff: "chunks c e cur = [] \<longleftrightarrow> \<not> (cur < e \<and> 0 < c)"
  by (cases "cur < e \<and> 0 < c") (auto simp: chunks_Cons chunks_Nil)

lemma chunks_last: "chunks c e cur \<noteq> [] \<Longrightarrow> snd (last (chunks c e cur)) = e"
proof (induction c e cur rule: chunks.induct)
  case (1 c e cur)
  from 1(2) have t: "cur < e \<and> 0 < c" by (simp add: chunks_empty_iff)
  show ?case
  proof (cases "chunks c e (min (cur + c) e) = []")
    case True
    then have "\<not> min (cur + c) e < e" using t by (simp add: chunks_empty_iff)
    with t True show ?thesis by (auto simp: chunks_Cons)
  next
    case False
    with 1(1) t show ?thesis by (simp add: chunks_Cons)
  qed
qed

lemma chunks_successively:
  "successively (\<lambda>w w'. snd w = fst w') (chunks c e cur)"
proof (induction c e cur rule: chunks.induct)
  case (1 c e cur)
  show ?case
  proof (cases "cur < e \<and> 0 < c")
    case True
    with 1 chunks_hd[of c e "min (cur + c) e"] show ?thesis
      by (cases "chunks c e (min (cur + c) e)") (auto simp: chunks_Cons)
  next
    case False
    then show ?thesis by (simp add: chunks_Nil)
  qed
qed

lemma chunks_sorted:
  "sorted_wrt (\<lambda>w w'. snd w \<le> fst w') (chunks c e cur)"
proof (induction c e cur rule: chunks.induct)
  case (1 c e cur)
  show ?case
  proof (cases "cur < e \<and> 0 < c")
    case True
    with 1 chunks_bounds[of _ c e "min (cur + c) e"] show ?thesis
      by (auto simp: chunks_Cons)
  next
    case False
    then show ?thesis by (simp add: chunks_Nil)
  qed
qed

lemma chunks_butlast:
  "w \<in> set (butlast (chunks c e cur)) \<Longrightarrow> snd w - fst w = c"
proof (induction c e cur rule: chunks.induct)
  case (1 c e cur)
  show ?case
  proof (cases "cur < e \<and> 0 < c")
    case True
    show ?thesis
    proof (cases "chunks c e (min (cur + c) e) = []")
      case True
      with 1(2) \<open>cur < e \<and> 0 < c\<close> show ?thesis by (simp add: chunks_Cons)
    next
      case False
      then have "min (cur + c) e < e" by (simp add: chunks_empty_iff)
      with 1 True False show ?thesis by (auto simp: chunks_Cons)
    qed
  next
    case False
    with 1 show ?thesis by (simp add: chunks_Nil)
  qed
qed

lemma chunks_union:
  "cur \<le> e \<Longrightarrow> 0 < c \<Longrightarrow> (\<Union>w\<in>set (chunks c e cur). {fst w..<snd w}) = {cur..<e}"
proof (induction c e cur rule: chunks.induct)
  case (1 c e cur)
  show ?case
  proof (cases "cur < e")
    case True
    with 1 have "(\<Union>w\<in>set (chunks c e (min (cur + c) e)). {fst w..<snd w}) = {min (cur + c) e..<e}"
      by simp
    moreover have "{cur..<min (cur + c) e} \<union> {min (cur + c) e..<e} = {cur..<e}"
      using True 1(3) by auto
    ultimately show ?thesis using True 1(3) by (simp add: chunks_Cons)
  next
    case False
    with 1 show ?thesis by (simp add: chunks_Nil)
  qed
qed


lemma ceil_div_step: "0 < (c::int) \<Longrightarrow> (x + c) div c = x div c + 1"
  using div_add_self2[of c x] by auto

lemma chunks_length:
  "0 < c \<Longrightarrow> int (length (chunks c e cur)) = (if cur < e then (e - cur + c - 1) div c else 0)"
proof (induction c e cur rule: chunks.induct)
  case (1 c e cur)
  show ?case
  proof (cases "cur < e")
    case True
    note lt = True
    show ?thesis
    proof (cases "cur + c < e")
      case True
      have "(e - cur + c - 1) div c = ((e - (cur + c) + c - 1) + c) div c"
        by (simp add: algebra_simps)
      also have "\<dots> = (e - (cur + c) + c - 1) div c + 1"
        by (rule ceil_div_step[OF 1(2)])
      finally have "(e - cur + c - 1) div c = (e - (cur + c) + c - 1) div c + 1" .
      moreover have "int (length (chunks c e (cur + c))) = (e - (cur + c) + c - 1) div c"
        using "1.IH" lt 1(2) True by (simp add: min_def)
      ultimately show ?thesis using lt True 1(2) by (simp add: chunks_Cons min_def)
    next
      case False
      have "(e - cur + c - 1) div c = ((e - cur - 1) + c) div c"
        by (simp add: algebra_simps)
      also have "\<dots> = (e - cur - 1) div c + 1"
        by (rule ceil_div_step[OF 1(2)])
      finally have "(e - cur + c - 1) div c = (e - cur - 1) div c + 1" .
      moreover have "(e - cur - 1) div c = 0"
        using lt False by (intro div_pos_pos_trivial) auto
      ultimately show ?thesis using lt False 1(2) by (simp add: chunks_Cons chunks_Nil min_def)
    qed
  next
    case False
    then show ?thesis by (simp add: chunks_Nil)
  qed
qed

lemma sorted_wrt_disjoint:
  "sorted_wrt (\<lambda>w w'. snd w \<le> fst w') ws \<Longrightarrow>
   sorted_wrt (\<lambda>w w'. {fst w..<snd w} \<inter> {fst w'..<snd w'} = {}) (ws :: (int \<times> int) list)"
  by (erule sorted_wrt_mono_rel[rotated]) auto

lemma chunks_step_full:
  "0 < c \<Longrightarrow> cur + c < e \<Longrightarrow> chunks c e cur = (cur, cur + c) # chunks c e (cur + c)"
  by (simp add: chunks_Cons min_def)

lemma chunks_step_last:
  "0 < c \<Longrightarrow> cur < e \<Longrightarrow> e \<le> cur + c \<Longrightarrow> chunks c e cur = [(cur, e)]"
  by (simp add: chunks_Cons chunks_Nil min_def)

lemma chunks_29_8:
  "chunks (days 8) now (now - days 29) =
     [(now - days 29, now - days 21), (now - days 21, now - days 13),
      (now - days 13, now - days 5), (now - days 5, now)]"
proof -
  have a: "chunks (days 8) now (now - days 29) =
      (now - days 29, now - days 21) # chunks (days 8) now (now - days 21)"
    using chunks_step_full[of "days 8" "now - days 29" now] by (simp add: days_def day_ns_def)
  have b: "chunks (days 8) now (now - days 21) =
      (now - days 21, now - days 13) # chunks (days 8) now (now - days 13)"
    using chunks_step_full[of "days 8" "now - days 21" now] by (simp add: days_def day_ns_def)
  have c: "chunks (days 8) now (now - days 13) =
      (now - days 13, now - days 5) # chunks (days 8) now (now - days 5)"
    using chunks_step_full[of "days 8" "now - days 13" now] by (simp add: days_def day_ns_def)
  have d: "chunks (days 8) now (now - days 5) = [(now - days 5, now)]"
    using chunks_step_last[of "days 8" "now - days 5" now] by (simp add: days_def day_ns_def)
  show ?thesis by (simp only: a b c d)
qed

section \<open>The claims about the window walk\<close>

text \<open>
  Claim C3. When \<open>start \<le> end\<close> and a block has at least one day, the loop ends and the
  blocks it visits are these: there is none exactly when \<open>start = end\<close>; the first begins
  at \<open>start\<close> and the last ends at \<open>end\<close>; every block \<open>[a, b)\<close> is not empty and has
  \<open>b = min (a + chunk) end\<close>, so it is at most one block length long; each block ends
  where the next begins; any two blocks are disjoint; every block but the last has the
  full length; and the blocks together are exactly \<open>[start, end)\<close>.
\<close>

theorem window_walk_partition:
  assumes "start \<le> end_ts" and "1 \<le> chunk_days"
  shows "\<exists>ws. window_walk (days chunk_days) end_ts start = Some ws
    \<and> (ws = [] \<longleftrightarrow> start = end_ts)
    \<and> (ws \<noteq> [] \<longrightarrow> fst (hd ws) = start \<and> snd (last ws) = end_ts)
    \<and> (\<forall>w\<in>set ws. fst w < snd w \<and> snd w = min (fst w + days chunk_days) end_ts
          \<and> snd w - fst w \<le> days chunk_days)
    \<and> successively (\<lambda>w w'. snd w = fst w') ws
    \<and> sorted_wrt (\<lambda>w w'. {fst w..<snd w} \<inter> {fst w'..<snd w'} = {}) ws
    \<and> (\<forall>w\<in>set (butlast ws). snd w - fst w = days chunk_days)
    \<and> (\<Union>w\<in>set ws. {fst w..<snd w}) = {start..<end_ts}"
proof -
  let ?c = "days chunk_days"
  let ?ws = "chunks ?c end_ts start"
  have pos: "0 < ?c" using assms(2) by (simp add: days_def day_ns_def)
  have 1: "window_walk ?c end_ts start = Some ?ws" by (rule window_walk_chunks[OF pos])
  have 2: "?ws = [] \<longleftrightarrow> start = end_ts" using assms(1) pos by (auto simp: chunks_empty_iff)
  have 3: "?ws \<noteq> [] \<longrightarrow> fst (hd ?ws) = start \<and> snd (last ?ws) = end_ts"
    by (simp add: chunks_hd chunks_last)
  have 4: "\<forall>w\<in>set ?ws. fst w < snd w \<and> snd w = min (fst w + ?c) end_ts \<and> snd w - fst w \<le> ?c"
    using chunks_bounds[of _ ?c end_ts start] by blast
  have 5: "successively (\<lambda>w w'. snd w = fst w') ?ws" by (rule chunks_successively)
  have 6: "sorted_wrt (\<lambda>w w'. {fst w..<snd w} \<inter> {fst w'..<snd w'} = {}) ?ws"
    by (rule sorted_wrt_disjoint[OF chunks_sorted])
  have 7: "\<forall>w\<in>set (butlast ?ws). snd w - fst w = ?c" using chunks_butlast by blast
  have 8: "(\<Union>w\<in>set ?ws. {fst w..<snd w}) = {start..<end_ts}"
    by (rule chunks_union[OF assms(1) pos])
  from 1 2 3 4 5 6 7 8 show ?thesis by blast
qed

theorem window_walk_partition_witness:
  "(0::int) \<le> days 29 \<and> (1::int) \<le> 8 \<and>
   (\<exists>ws. window_walk (days 8) (days 29) 0 = Some ws \<and> length ws = 4
      \<and> (\<Union>w\<in>set ws. {fst w..<snd w}) = {0..<days 29})"
proof -
  have h1: "(0::int) \<le> days 29" by (simp add: days_def day_ns_def)
  have h2: "(1::int) \<le> 8" by simp
  have "window_walk (days 8) (days 29) 0 = Some (chunks (days 8) (days 29) (days 29 - days 29))"
    by (simp add: window_walk_chunks days_def day_ns_def)
  then have conc: "window_walk (days 8) (days 29) 0 =
      Some [(days 29 - days 29, days 29 - days 21), (days 29 - days 21, days 29 - days 13),
            (days 29 - days 13, days 29 - days 5), (days 29 - days 5, days 29)]"
    by (simp only: chunks_29_8)
  from window_walk_partition[OF h1 h2] obtain ws
    where ws: "window_walk (days 8) (days 29) 0 = Some ws"
      and u: "(\<Union>w\<in>set ws. {fst w..<snd w}) = {0..<days 29}"
    by blast
  from ws conc have "ws = [(days 29 - days 29, days 29 - days 21), (days 29 - days 21, days 29 - days 13),
            (days 29 - days 13, days 29 - days 5), (days 29 - days 5, days 29)]"
    by simp
  then have "length ws = 4" by simp
  with ws u h1 h2 show ?thesis by blast
qed

lemma init_fields:
  "start_date (init tk iv chunk_days historical_days out now now') =
     now - days (resolve_historical_days iv historical_days) + days 1"
  "end_date (init tk iv chunk_days historical_days out now now') = min now now'"
  "max_chunk (init tk iv chunk_days historical_days out now now') =
     days (resolve_chunk_days iv chunk_days)"
  "ticker (init tk iv chunk_days historical_days out now now') = tk"
  "interval (init tk iv chunk_days historical_days out now now') = iv"
  "output_dir (init tk iv chunk_days historical_days out now now') = out"
  by (simp_all add: init_def adjust_dates_def)

text \<open>
  Claim C1, as amended. With 30 historical days and blocks of 8 days, and the clock not
  running backwards between its two readings, the start is \<open>now - 30 days + 1 day\<close>, that
  is 29 days before \<open>now\<close>, and the loop visits exactly four blocks, of 8, 8, 8 and 5
  days, which follow one another and cover the 29 days \<open>[now - 29 days, now)\<close>.
\<close>

theorem thirty_days_in_blocks_of_eight:
  assumes "resolve_historical_days iv historical_days = 30"
    and "resolve_chunk_days iv chunk_days = 8"
    and "now \<le> now'"
  shows "windows_of (init tk iv chunk_days historical_days out now now') =
      Some [(now - days 29, now - days 21), (now - days 21, now - days 13),
            (now - days 13, now - days 5), (now - days 5, now)]
    \<and> (now - days 21) - (now - days 29) = days 8
    \<and> (now - days 13) - (now - days 21) = days 8
    \<and> (now - days 5) - (now - days 13) = days 8
    \<and> now - (now - days 5) = days 5
    \<and> {now - days 29..<now - days 21} \<union> {now - days 21..<now - days 13}
        \<union> {now - days 13..<now - days 5} \<union> {now - days 5..<now} = {now - days 29..<now}"
proof -
  have s: "now - days 30 + days 1 = now - days 29" by (simp add: days_def)
  have pos: "0 < days 8" by (simp add: days_def day_ns_def)
  have "windows_of (init tk iv chunk_days historical_days out now now') =
      Some (chunks (days 8) now (now - days 29))"
    using assms by (simp add: windows_of_def init_fields s window_walk_chunks[OF pos])
  then have 1: "windows_of (init tk iv chunk_days historical_days out now now') =
      Some [(now - days 29, now - days 21), (now - days 21, now - days 13),
            (now - days 13, now - days 5), (now - days 5, now)]"
    by (simp only: chunks_29_8)
  have 2: "{now - days 29..<now - days 21} \<union> {now - days 21..<now - days 13}
        \<union> {now - days 13..<now - days 5} \<union> {now - days 5..<now} = {now - days 29..<now}"
    by (auto simp: days_def day_ns_def)
  from 1 2 show ?thesis by (simp add: days_def)
qed

theorem thirty_days_in_blocks_of_eight_witness:
  "windows_of (init ''BTC-USD'' ''1m'' None None ''btc/intraday/short-term'' 1700000000000000000 1700000000000000000) =
      Some [(1700000000000000000 - days 29, 1700000000000000000 - days 21),
            (1700000000000000000 - days 21, 1700000000000000000 - days 13),
            (1700000000000000000 - days 13, 1700000000000000000 - days 5),
            (1700000000000000000 - days 5, 1700000000000000000)]"
proof -
  have a: "resolve_historical_days ''1m'' None = 30"
    by (simp add: resolve_historical_days_def minute_intervals_def)
  have b: "resolve_chunk_days ''1m'' None = 8" by (simp add: resolve_chunk_days_def)
  have c: "(1700000000000000000::int) \<le> 1700000000000000000" by simp
  from thirty_days_in_blocks_of_eight[OF a b c] show ?thesis by blast
qed

text \<open>
  The claim C1 as the specification words it (spans of 8, 8, 8 and 6 days over a range of
  30 days) fails: for the default request of the interval \<open>1m\<close> built at the instant
  1700000000000000000 the last block has 5 days and the range 29.
\<close>

theorem thirty_days_counterexample:
  "windows_of (init ''BTC-USD'' ''1m'' None None ''btc/intraday/short-term'' 1700000000000000000 1700000000000000000) =
      Some [(1697494400000000000, 1698185600000000000),
            (1698185600000000000, 1698876800000000000),
            (1698876800000000000, 1699568000000000000),
            (1699568000000000000, 1700000000000000000)]
   \<and> 1700000000000000000 - 1699568000000000000 = days 5
   \<and> 1700000000000000000 - 1699568000000000000 \<noteq> days 6
   \<and> 1700000000000000000 - 1697494400000000000 = days 29
   \<and> 1700000000000000000 - 1697494400000000000 \<noteq> days 30"
proof -
  have a: "resolve_historical_days ''1m'' None = 30"
    by (simp add: resolve_historical_days_def minute_intervals_def)
  have b: "resolve_chunk_days ''1m'' None = 8" by (simp add: resolve_chunk_days_def)
  have pos: "0 < days 8" by (simp add: days_def day_ns_def)
  have s: "1700000000000000000 - days 30 + days 1 = 1700000000000000000 - days 29" by (simp add: days_def)
  have "windows_of (init ''BTC-USD'' ''1m'' None None ''btc/intraday/short-term'' 1700000000000000000 1700000000000000000) =
      Some (chunks (days 8) 1700000000000000000 (1700000000000000000 - days 29))"
    by (simp add: windows_of_def init_fields a b s window_walk_chunks[OF pos])
  then show ?thesis
    by (simp only: chunks_29_8) (simp add: days_def day_ns_def)
qed

text \<open>
  Claim C8. When a block has at least one day, the loop of \<open>download\<close> ends, whatever the
  provider answers: the list of blocks exists, \<open>download\<close> returns, the cursor moves
  forward in every block and never beyond the end date, and the number of iterations is
  the length of the range divided by the block length, rounded up.
\<close>

theorem download_terminates:
  assumes "max_chunk d = days chunk_days" and "1 \<le> chunk_days"
  shows "\<exists>ws r. windows_of d = Some ws \<and> download fetch d save_csv fs = Some r
    \<and> (\<forall>w\<in>set ws. fst w < snd w \<and> snd w \<le> end_date d)
    \<and> int (length ws) =
        (if start_date d < end_date d
         then (end_date d - start_date d + max_chunk d - 1) div max_chunk d else 0)"
proof -
  have pos: "0 < max_chunk d" using assms by (simp add: days_def day_ns_def)
  let ?ws = "chunks (max_chunk d) (end_date d) (start_date d)"
  have 1: "windows_of d = Some ?ws" by (simp add: windows_of_def window_walk_chunks[OF pos])
  have 2: "\<exists>r. download fetch d save_csv fs = Some r"
    by (simp add: download_def data_frames_of_def walk_chunks[OF pos])
  have 3: "\<forall>w\<in>set ?ws. fst w < snd w \<and> snd w \<le> end_date d"
    using chunks_bounds[of _ "max_chunk d" "end_date d" "start_date d"] by blast
  have 4: "int (length ?ws) =
        (if start_date d < end_date d
         then (end_date d - start_date d + max_chunk d - 1) div max_chunk d else 0)"
    by (rule chunks_length[OF pos])
  from 1 2 3 4 show ?thesis by blast
qed

theorem download_terminates_witness:
  "max_chunk (init ''BTC-USD'' ''1m'' None None ''out'' 0 0) = days 8 \<and> (1::int) \<le> 8 \<and>
   (\<exists>ws r. windows_of (init ''BTC-USD'' ''1m'' None None ''out'' 0 0) = Some ws
      \<and> download ((\<lambda>tk a b iv. Raised) :: int provider)
            (init ''BTC-USD'' ''1m'' None None ''out'' 0 0) True Map.empty = Some r)"
proof -
  have a: "max_chunk (init ''BTC-USD'' ''1m'' None None ''out'' 0 0) = days 8"
    by (simp add: init_fields resolve_chunk_days_def)
  have b: "(1::int) \<le> 8" by simp
  from download_terminates[OF a b, of "\<lambda>tk a b iv. Raised" True Map.empty] a b
  show ?thesis by blast
qed

section \<open>The claim about the constructor\<close>



section \<open>The claims about the normalisation of a table\<close>

lemma new_columns_Inr:
  "Tup [] \<notin> set cols \<Longrightarrow>
     new_columns cols = Inr (map (\<lambda>col. case col of Tup cs \<Rightarrow> Str (hd cs) | Str s \<Rightarrow> Str s) cols)"
proof (induction cols)
  case Nil
  then show ?case by simp
next
  case (Cons col cols)
  then show ?case by (cases col rule: flatten_label.cases) auto
qed

lemma new_columns_Inl: "Tup [] \<in> set cols \<Longrightarrow> new_columns cols = Inl IndexError"
proof (induction cols)
  case Nil
  then show ?case by simp
next
  case (Cons col cols)
  then show ?case by (cases col rule: flatten_label.cases) (auto split: sum.splits)
qed

lemma new_columns_length: "new_columns cols = Inr cs \<Longrightarrow> length cs = length cols"
  by (induction cols arbitrary: cs) (auto split: sum.splits)

lemma rename_datetime_map:
  "rename_datetime cols = map (\<lambda>c. if c = Str ''Datetime'' then Str ''Date'' else c) cols"
proof (cases "Str ''Datetime'' \<in> set cols")
  case True
  then show ?thesis by (simp add: rename_datetime_def)
next
  case False
  then have "map (\<lambda>c. if c = Str ''Datetime'' then Str ''Date'' else c) cols = cols"
    by (intro map_idI) auto
  with False show ?thesis by (simp add: rename_datetime_def)
qed

lemma rename_datetime_length: "length (rename_datetime cols) = length cols"
  by (simp add: rename_datetime_map)



text \<open>
  Claim C10. \<open>flatten_columns\<close> returns a table whenever no label is an empty tuple, and
  a table it returns differs from its argument in the labels only: the rows (their number,
  their order, every cell) are the same, the number of columns is the same, and the
  result is the argument with its labels replaced.
\<close>

theorem flatten_columns_frame:
  "(Tup [] \<notin> set (columns df) \<longrightarrow> (\<exists>df'. flatten_columns df = Inr df'))
   \<and> (\<forall>df'. flatten_columns df = Inr df' \<longrightarrow>
         rows df' = rows df \<and> length (columns df') = length (columns df)
         \<and> df' = df\<lparr>columns := columns df'\<rparr>)"
proof -
  have 1: "\<exists>df'. flatten_columns df = Inr df'" if "Tup [] \<notin> set (columns df)"
    using new_columns_Inr[OF that] by (simp add: flatten_columns_def)
  have 2: "rows df' = rows df \<and> length (columns df') = length (columns df)
         \<and> df' = df\<lparr>columns := columns df'\<rparr>" if "flatten_columns df = Inr df'" for df'
    using that
    by (auto simp: flatten_columns_def rename_datetime_length new_columns_length split: sum.splits)
  from 1 2 show ?thesis by blast
qed

theorem flatten_columns_frame_witness:
  "Tup [] \<notin> set (columns \<lparr> columns = [Tup [''Datetime'', ''''], Tup [''Close'', ''BTC-USD'']],
                               rows = [[Some (1::int), Some 2], [Some 3, None]] \<rparr>)
   \<and> (\<exists>df'. flatten_columns \<lparr> columns = [Tup [''Datetime'', ''''], Tup [''Close'', ''BTC-USD'']],
                               rows = [[Some (1::int), Some 2], [Some 3, None]] \<rparr> = Inr df'
          \<and> rows df' = [[Some 1, Some 2], [Some 3, None]] \<and> length (columns df') = 2)"
proof -
  let ?X = "\<lparr> columns = [Tup [''Datetime'', ''''], Tup [''Close'', ''BTC-USD'']],
             rows = [[Some (1::int), Some 2], [Some 3, None]] \<rparr>"
  have h: "Tup [] \<notin> set (columns ?X)" by simp
  from flatten_columns_frame[of ?X] h obtain df' where 1: "flatten_columns ?X = Inr df'"
    by blast
  with flatten_columns_frame[of ?X]
  have "rows df' = rows ?X \<and> length (columns df') = length (columns ?X)" by blast
  then have "rows df' = [[Some 1, Some 2], [Some 3, None]] \<and> length (columns df') = 2" by simp
  with h 1 show ?thesis by blast
qed

section \<open>The claims about the aggregation\<close>

lemma keep_first_fresh:
  "r \<in> set (keep_first key seen rs) \<Longrightarrow> key r \<notin> set seen \<and> r \<in> set rs"
proof (induction rs arbitrary: seen)
  case Nil
  then show ?case by simp
next
  case (Cons a rs)
  show ?case
  proof (cases "key a \<in> set seen")
    case True
    with Cons show ?thesis by auto
  next
    case False
    with Cons.prems have "r = a \<or> r \<in> set (keep_first key (key a # seen) rs)" by simp
    then show ?thesis
    proof
      assume "r = a"
      with False show ?thesis by simp
    next
      assume "r \<in> set (keep_first key (key a # seen) rs)"
      from Cons.IH[OF this] show ?thesis by simp
    qed
  qed
qed

lemma keep_first_distinct: "distinct (map key (keep_first key seen rs))"
  by (induction rs arbitrary: seen) (auto dest: keep_first_fresh)

lemma keep_first_id:
  "distinct (map key rs) \<Longrightarrow> \<forall>r\<in>set rs. key r \<notin> set seen \<Longrightarrow> keep_first key seen rs = rs"
proof (induction rs arbitrary: seen)
  case Nil
  then show ?case by simp
next
  case (Cons a rs)
  from Cons.prems have "distinct (map key rs)" and "\<forall>r\<in>set rs. key r \<notin> set (key a # seen)"
    by (auto simp: image_iff)
  then have "keep_first key (key a # seen) rs = rs" by (rule Cons.IH)
  with Cons.prems show ?case by simp
qed

lemma keep_first_idem: "keep_first key [] (keep_first key [] rs) = keep_first key [] rs"
  by (rule keep_first_id[OF keep_first_distinct]) simp

lemma drop_duplicates_idem: "drop_duplicates df = Inr r \<Longrightarrow> drop_duplicates r = Inr r"
  by (auto simp: drop_duplicates_def keep_first_idem split: list.splits)

lemma pd_concat_single: "pd_concat [r] = Inr r"
  by (simp add: pd_concat_def)


























text \<open>
  The labels have to be distinct for the key to be the first cell: under a label that
  occurs twice, \<open>subset=result.columns[0]\<close> selects both columns.
\<close>

lemma drop_duplicates_repeated_label:
  "drop_duplicates \<lparr> columns = [Str ''Date'', Str ''Date''],
                     rows = [[Some (1::int), Some 2], [Some 1, Some 3]] \<rparr>
     = Inr \<lparr> columns = [Str ''Date'', Str ''Date''],
             rows = [[Some 1, Some 2], [Some 1, Some 3]] \<rparr>"
  by (simp add: drop_duplicates_def subset_key_def)

text \<open>
  Claim C9. Removing duplicates is idempotent: a table that \<open>drop_duplicates\<close> returns
  is returned unchanged by \<open>drop_duplicates\<close>; the result of the aggregation, aggregated
  again, is itself; and keeping first occurrences twice is keeping them once.
\<close>

theorem drop_duplicates_idempotent:
  "(drop_duplicates df = Inr r \<longrightarrow> drop_duplicates r = Inr r)
   \<and> (aggregate dfs = Inr r' \<longrightarrow> aggregate [r'] = Inr r')
   \<and> keep_first key [] (keep_first key [] rs) = keep_first key [] rs"
proof -
  have "aggregate [r'] = Inr r'" if "aggregate dfs = Inr r'"
  proof -
    from that obtain c where "drop_duplicates c = Inr r'"
      by (auto simp: aggregate_def split: sum.splits)
    then have "drop_duplicates r' = Inr r'" by (rule drop_duplicates_idem)
    then show ?thesis by (simp add: aggregate_def pd_concat_single)
  qed
  then show ?thesis using drop_duplicates_idem[of df r] keep_first_idem[of key rs] by blast
qed

theorem drop_duplicates_idempotent_witness:
  "drop_duplicates \<lparr> columns = [Str ''Date'', Str ''Close''],
                     rows = [[Some (1::int), Some 10], [Some 1, Some 11], [Some 2, Some 12]] \<rparr>
     = Inr \<lparr> columns = [Str ''Date'', Str ''Close''],
             rows = [[Some 1, Some 10], [Some 2, Some 12]] \<rparr>
   \<and> drop_duplicates \<lparr> columns = [Str ''Date'', Str ''Close''],
                       rows = [[Some (1::int), Some 10], [Some 2, Some 12]] \<rparr>
     = Inr \<lparr> columns = [Str ''Date'', Str ''Close''],
             rows = [[Some 1, Some 10], [Some 2, Some 12]] \<rparr>"
proof -
  let ?X = "\<lparr> columns = [Str ''Date'', Str ''Close''],
             rows = [[Some (1::int), Some 10], [Some 1, Some 11], [Some 2, Some 12]] \<rparr>"
  let ?Y = "\<lparr> columns = [Str ''Date'', Str ''Close''],
             rows = [[Some (1::int), Some 10], [Some 2, Some 12]] \<rparr>"
  have a: "drop_duplicates ?X = Inr ?Y" by (simp add: drop_duplicates_def subset_key_def)
  with drop_duplicates_idempotent[of ?X ?Y] have "drop_duplicates ?Y = Inr ?Y" by blast
  with a show ?thesis by blast
qed

section \<open>The claims about failing blocks\<close>














end
